theory Spec2Isabelle
  imports Main
begin

section \<open>JavaScript strings and character classes\<close>

text \<open>
  A JavaScript string is a sequence of UTF-16 code units; a code unit is modelled by its
  number.  Literals of the source are ASCII and are written as Isabelle strings, converted
  by \<open>utf16\<close>.
\<close>

type_synonym jstring = "nat list"

definition utf16 :: "string \<Rightarrow> jstring" where
  "utf16 s = map of_char s"

text \<open>The class \<open>\s\<close> of ECMAScript: WhiteSpace and LineTerminator code points.\<close>

definition is_space :: "nat \<Rightarrow> bool" where
  "is_space x =
     ((9 \<le> x \<and> x \<le> 13) \<or> x = 32 \<or> x = 160 \<or> x = 5760 \<or> (8192 \<le> x \<and> x \<le> 8202)
      \<or> x = 8232 \<or> x = 8233 \<or> x = 8239 \<or> x = 8287 \<or> x = 12288 \<or> x = 65279)"

text \<open>The class \<open>\d\<close>: \<open>0\<close> to \<open>9\<close>.\<close>

definition is_digit :: "nat \<Rightarrow> bool" where
  "is_digit x = (48 \<le> x \<and> x \<le> 57)"

text \<open>The class \<open>\w\<close>: ASCII letters, digits and the underscore.\<close>

definition is_word :: "nat \<Rightarrow> bool" where
  "is_word x = ((97 \<le> x \<and> x \<le> 122) \<or> (65 \<le> x \<and> x \<le> 90) \<or> is_digit x \<or> x = 95)"

text \<open>
  Canonicalize of a regular expression with the flag \<open>i\<close> and without the flag \<open>u\<close>:
  a code unit is replaced by its upper case, and a code unit from 128 on is never mapped
  below 128.  Every pattern character of the source is ASCII, so only the ASCII part of
  the mapping can decide a comparison; the model is the identity elsewhere.
\<close>

definition canon :: "nat \<Rightarrow> nat" where
  "canon x = (if 97 \<le> x \<and> x \<le> 122 then x - 32 else x)"

section \<open>Regular expressions\<close>

text \<open>
  The expressions of the source use literal characters, the classes \<open>\s\<close>, \<open>\w\<close>,
  \<open>\d\<close> and \<open>[\d.]\<close>, the quantifiers \<open>*\<close> and \<open>+\<close> on a single class, groups
  with alternatives, and one optional group.
\<close>

datatype atom = Chr char | Space | Word | Digit | Or atom atom

fun accepts :: "atom \<Rightarrow> nat \<Rightarrow> bool" where
  "accepts (Chr c) x = (canon x = canon (of_char c))"
| "accepts Space x = is_space x"
| "accepts Word x = is_word x"
| "accepts Digit x = is_digit x"
| "accepts (Or a b) x = (accepts a x \<or> accepts b x)"

datatype rx = Eps | One atom | Many atom | Many1 atom | Seq rx rx | Alt rx rx | Opt rx

text \<open>
  The backtracking matcher: \<open>ends r s\<close> lists, in the order in which the engine tries
  them (greedy quantifiers consume first), the rests of \<open>s\<close> left after a match of \<open>r\<close>
  at the start of \<open>s\<close>.
\<close>

fun ends :: "rx \<Rightarrow> jstring \<Rightarrow> jstring list" where
  "ends Eps s = [s]"
| "ends (One a) [] = []"
| "ends (One a) (x # xs) = (if accepts a x then [xs] else [])"
| "ends (Many a) [] = [[]]"
| "ends (Many a) (x # xs) = (if accepts a x then ends (Many a) xs else []) @ [x # xs]"
| "ends (Many1 a) [] = []"
| "ends (Many1 a) (x # xs) = (if accepts a x then ends (Many a) xs else [])"
| "ends (Seq r1 r2) s = concat (map (ends r2) (ends r1 s))"
| "ends (Alt r1 r2) s = ends r1 s @ ends r2 s"
| "ends (Opt r) s = ends r s @ [s]"

text \<open>\<open>RegExp.prototype.test\<close> without the flags \<open>g\<close> and \<open>y\<close>: a match may start at any index.\<close>

fun test :: "rx \<Rightarrow> jstring \<Rightarrow> bool" where
  "test r [] = (ends r [] \<noteq> [])"
| "test r (x # xs) = (ends r (x # xs) \<noteq> [] \<or> test r xs)"

text \<open>A match of the whole string, as \<open>^r$\<close> would ask for.\<close>

definition full :: "rx \<Rightarrow> jstring \<Rightarrow> bool" where
  "full r s = ([] \<in> set (ends r s))"

fun lit :: "string \<Rightarrow> rx" where
  "lit [] = Eps"
| "lit (c # cs) = Seq (One (Chr c)) (lit cs)"

fun cat :: "rx list \<Rightarrow> rx" where
  "cat [] = Eps"
| "cat (r # rs) = Seq r (cat rs)"

section \<open>The classifier\<close>

text \<open>\<open>[\d.]+\<close>\<close>

definition number :: rx where
  "number = Many1 (Or Digit (Chr CHR ''.''))"

text \<open>\<open>/script\s*:\s*\w+/i\<close>\<close>

definition re_script :: rx where
  "re_script = cat [lit ''script'', Many Space, lit '':'', Many Space, Many1 Word]"

text \<open>\<open>/position\s*:\s*(BUY|SELL)/i\<close>\<close>

definition re_position :: rx where
  "re_position =
     cat [lit ''position'', Many Space, lit '':'', Many Space,
          Alt (lit ''BUY'') (lit ''SELL'')]"

text \<open>\<open>/enter\s*price\s*:\s*[\d.]+/i\<close>\<close>

definition re_enter_price :: rx where
  "re_enter_price =
     cat [lit ''enter'', Many Space, lit ''price'', Many Space, lit '':'', Many Space,
          number]"

text \<open>\<open>/take\s*profit\s*1\s*:\s*[\d.]+/i\<close>\<close>

definition re_take_profit_1 :: rx where
  "re_take_profit_1 =
     cat [lit ''take'', Many Space, lit ''profit'', Many Space, lit ''1'', Many Space,
          lit '':'', Many Space, number]"

text \<open>\<open>/stoploss\s*:\s*[\d.]+/i\<close>\<close>

definition re_stoploss :: rx where
  "re_stoploss = cat [lit ''stoploss'', Many Space, lit '':'', Many Space, number]"

text \<open>\<open>/take\s*profit\s*\d+\s*from\s*(long|short)\s*signal/i\<close>\<close>

definition re_tp_from :: rx where
  "re_tp_from =
     cat [lit ''take'', Many Space, lit ''profit'', Many Space, Many1 Digit, Many Space,
          lit ''from'', Many Space, Alt (lit ''long'') (lit ''short''), Many Space,
          lit ''signal'']"

text \<open>\<open>/(?:at\s*)?price\s*:\s*[\d.]+\s*in\s*\w+/i\<close>\<close>

definition re_at_price_in :: rx where
  "re_at_price_in =
     cat [Opt (cat [lit ''at'', Many Space]), lit ''price'', Many Space, lit '':'',
          Many Space, number, Many Space, lit ''in'', Many Space, Many1 Word]"

text \<open>\<open>/hit\s*sl\s*from\s*(long|short)\s*signal/i\<close>\<close>

definition re_hit_sl :: rx where
  "re_hit_sl =
     cat [lit ''hit'', Many Space, lit ''sl'', Many Space, lit ''from'', Many Space,
          Alt (lit ''long'') (lit ''short''), Many Space, lit ''signal'']"

text \<open>\<open>/price\s*:\s*[\d.]+\s*in\s*\w+/i\<close>\<close>

definition re_price_in :: rx where
  "re_price_in =
     cat [lit ''price'', Many Space, lit '':'', Many Space, number, Many Space,
          lit ''in'', Many Space, Many1 Word]"

definition isNewSignal :: "jstring \<Rightarrow> bool" where
  "isNewSignal text =
     (test re_script text \<and> test re_position text \<and> test re_enter_price text
      \<and> test re_take_profit_1 text \<and> test re_stoploss text)"

definition isTpUpdate :: "jstring \<Rightarrow> bool" where
  "isTpUpdate text = (test re_tp_from text \<and> test re_at_price_in text)"

definition isSlHit :: "jstring \<Rightarrow> bool" where
  "isSlHit text = (test re_hit_sl text \<and> test re_price_in text)"

definition isValidSignalMessage :: "jstring \<Rightarrow> bool" where
  "isValidSignalMessage text = (isNewSignal text \<or> isTpUpdate text \<or> isSlHit text)"

section \<open>Configuration, counters and effects\<close>

text \<open>
  The configuration read from the environment at start.  An unset source channel is the
  empty string, which the code treats as "not restricted".
\<close>

record config =
  SOURCE_CHANNEL_ID :: jstring
  WEBSITE_API_URL :: jstring
  INGEST_API_KEY :: jstring

text \<open>
  A parsed JSON value.  \<open>JObj\<close> lists the properties of the object, each key once;
  \<open>JNum\<close> keeps the text of the number, which the code never reads.
\<close>

datatype json =
  JNull | JBool bool | JNum jstring | JStr jstring | JArr "json list"
  | JObj "(jstring \<times> json) list"

text \<open>What \<open>fetch\<close> and \<open>response.json()\<close> can do: reject, or resolve to a value.\<close>

datatype transport = Unreachable | NotJson | Replied json

datatype exn = FetchError | JsonSyntaxError | TypeError

text \<open>
  The lines written to the console.  \<open>SignalForwarded v\<close> is the line of a successful
  forward, where \<open>v\<close> is the value of \<open>data.signal?.script\<close> (\<open>None\<close> is
  \<open>undefined\<close>); \<open>StatsLine r f i\<close> is the summary with the three counters.
\<close>

datatype line =
  SignalForwarded "json option"
  | IgnoredByParser
  | ApiError json
  | ForwardFailed exn
  | IgnoredNonSignal nat
  | StatsLine nat nat nat

datatype console_fn = console_log | console_error

record request =
  url :: jstring
  authorization :: jstring
  message :: jstring

datatype reply =
  StartReply nat nat nat
  | StatsReply nat nat nat jstring
  | TestStarting
  | TestOutcome bool

text \<open>
  The three counters of the module, and what the process has done so far: the console
  lines, the POST requests made, and the replies sent, oldest first.  A JavaScript number
  counts exactly up to \<open>2 ^ 53\<close>; the counters are modelled below that bound, as
  natural numbers.
\<close>

record state =
  messagesReceived :: nat
  messagesForwarded :: nat
  messagesIgnored :: nat
  console :: "(console_fn \<times> line) list"
  requests :: "request list"
  replies :: "reply list"

definition initial :: state where
  "initial =
     \<lparr>messagesReceived = 0, messagesForwarded = 0, messagesIgnored = 0,
      console = [], requests = [], replies = []\<rparr>"

definition emit :: "console_fn \<Rightarrow> line \<Rightarrow> state \<Rightarrow> state" where
  "emit f l s = s\<lparr>console := console s @ [(f, l)]\<rparr>"

section \<open>The forwarder\<close>

text \<open>\<open>await fetch(...)\<close> followed by \<open>await response.json()\<close>.\<close>

fun fetch_json :: "transport \<Rightarrow> exn + json" where
  "fetch_json Unreachable = Inl FetchError"
| "fetch_json NotJson = Inl JsonSyntaxError"
| "fetch_json (Replied data) = Inr data"

text \<open>
  Reading a property: \<open>null.k\<close> throws, an object gives its property or \<open>undefined\<close>,
  and no other JSON value has one of the properties the code reads.
\<close>

fun property :: "json \<Rightarrow> string \<Rightarrow> exn + json option" where
  "property JNull k = Inl TypeError"
| "property (JObj kvs) k = Inr (map_of kvs (utf16 k))"
| "property v k = Inr None"

text \<open>Optional chaining \<open>v?.k\<close>.\<close>

fun opt_prop :: "json option \<Rightarrow> string \<Rightarrow> exn + json option" where
  "opt_prop None k = Inr None"
| "opt_prop (Some JNull) k = Inr None"
| "opt_prop (Some v) k = property v k"

text \<open>
  The conversion to a string that a template literal applies to a value.  It throws a
  TypeError on an object that has a property \<open>toString\<close> of its own: JSON gives the
  property a value that cannot be called, and \<open>valueOf\<close> gives back the object.  On an
  array it joins the conversions of the elements other than \<open>null\<close>, so it throws when
  one of them does.  It throws on no other JSON value.
\<close>

fun toString_throws :: "json \<Rightarrow> bool" where
  "toString_throws (JObj kvs) = (map_of kvs (utf16 ''toString'') \<noteq> None)"
| "toString_throws (JArr vs) = list_ex (\<lambda>v. v \<noteq> JNull \<and> toString_throws v) vs"
| "toString_throws v = False"

text \<open>
  The statements inside \<open>try\<close>: the result and the line written, or the exception.
  In the line of a successful forward, \<open>data.signal?.script || 'Update'\<close> is converted
  to a string; a value that is an object or an array is truthy, so it is the value
  converted.
\<close>

definition try_body :: "transport \<Rightarrow> exn + (bool \<times> console_fn \<times> line)" where
  "try_body net =
     (case fetch_json net of
        Inl e \<Rightarrow> Inl e
      | Inr data \<Rightarrow>
          (case property data ''status'' of
             Inl e \<Rightarrow> Inl e
           | Inr status \<Rightarrow>
               if status = Some (JStr (utf16 ''success'')) then
                 (case property data ''signal'' of
                    Inl e \<Rightarrow> Inl e
                  | Inr signal \<Rightarrow>
                      (case opt_prop signal ''script'' of
                         Inl e \<Rightarrow> Inl e
                       | Inr script \<Rightarrow>
                           if (case script of None \<Rightarrow> False | Some v \<Rightarrow> toString_throws v)
                           then Inl TypeError
                           else Inr (True, console_log, SignalForwarded script)))
               else if status = Some (JStr (utf16 ''ignored'')) then
                 Inr (False, console_log, IgnoredByParser)
               else Inr (False, console_error, ApiError data)))"

text \<open>The POST request that \<open>fetch\<close> is called with.\<close>

definition ingest_request :: "config \<Rightarrow> jstring \<Rightarrow> request" where
  "ingest_request cfg text =
     \<lparr>url = WEBSITE_API_URL cfg @ utf16 ''/api/signals/ingest'',
      authorization = utf16 ''Bearer '' @ INGEST_API_KEY cfg,
      message = text\<rparr>"

definition forwardToWebsite ::
  "config \<Rightarrow> transport \<Rightarrow> jstring \<Rightarrow> state \<Rightarrow> bool \<times> state" where
  "forwardToWebsite cfg net text s =
     (let s1 = s\<lparr>requests := requests s @ [ingest_request cfg text]\<rparr>
      in case try_body net of
           Inr (result, f, l) \<Rightarrow> (result, emit f l s1)
         | Inl e \<Rightarrow> (False, emit console_error (ForwardFailed e) s1))"

text \<open>What the forwarder returns, for each outcome of the transport.\<close>

definition succeeds :: "transport \<Rightarrow> bool" where
  "succeeds net = (case try_body net of Inl e \<Rightarrow> False | Inr (result, f, l) \<Rightarrow> result)"

section \<open>The dispatcher\<close>

text \<open>
  Every handler runs to its end before the next event is handled.  \<open>net\<close> is what the
  transport does when this call reaches \<open>fetch\<close>.
\<close>

definition processMessage :: "config \<Rightarrow> transport \<Rightarrow> jstring \<Rightarrow> state \<Rightarrow> state" where
  "processMessage cfg net text s0 =
     (let s1 = s0\<lparr>messagesReceived := messagesReceived s0 + 1\<rparr> in
      if \<not> isValidSignalMessage text then
        (let s2 = s1\<lparr>messagesIgnored := messagesIgnored s1 + 1\<rparr>
         in emit console_log (IgnoredNonSignal (messagesIgnored s2)) s2)
      else
        (let (success, s2) = forwardToWebsite cfg net text s1;
             s3 = (if success then s2\<lparr>messagesForwarded := messagesForwarded s2 + 1\<rparr> else s2)
         in if messagesReceived s3 mod 10 = 0
            then emit console_log
                   (StatsLine (messagesReceived s3) (messagesForwarded s3) (messagesIgnored s3)) s3
            else s3))"

text \<open>
  \<open>Number.prototype.toString\<close> on an integer (chat identifiers are integers far below
  \<open>10 ^ 21\<close>, where the decimal notation ends).
\<close>

fun digits :: "nat \<Rightarrow> jstring" where
  "digits n = (if n < 10 then [48 + n] else digits (n div 10) @ [48 + n mod 10])"

declare digits.simps [simp del]

definition toString :: "int \<Rightarrow> jstring" where
  "toString i = (if i < 0 then 45 # digits (nat (- i)) else digits (nat i))"

text \<open>\<open>String.prototype.replace\<close> with a string pattern: the first occurrence only.\<close>

fun replace :: "jstring \<Rightarrow> jstring \<Rightarrow> jstring \<Rightarrow> jstring" where
  "replace pat rep [] = (if pat = [] then rep else [])"
| "replace pat rep (x # xs) =
     (if take (length pat) (x # xs) = pat then rep @ drop (length pat) (x # xs)
      else x # replace pat rep xs)"

text \<open>
  A message update: the chat it arrived in, the chat it was forwarded from and the date of
  the original, when it is a forwarded message, and its text, when it has one.
  \<open>command\<close> is the name of the command at the start of the text, when the first
  entity of the message marks one there.
\<close>

record update =
  chat_id :: int
  forward_from_chat :: "int option"
  forward_date :: "int option"
  msg_text :: "jstring option"
  command :: "jstring option"

text \<open>\<open>bot.on(message('text'), ...)\<close>\<close>

definition on_text :: "config \<Rightarrow> transport \<Rightarrow> update \<Rightarrow> state \<Rightarrow> state" where
  "on_text cfg net u s =
     (case msg_text u of
        None \<Rightarrow> s
      | Some text \<Rightarrow>
          (let src = SOURCE_CHANNEL_ID cfg; chatId = toString (chat_id u) in
           if src \<noteq> []
              \<and> (chatId \<noteq> src \<and> chatId \<noteq> replace (utf16 ''-100'') (utf16 ''-'') src)
              \<and> (case forward_from_chat u of
                    None \<Rightarrow> True
                  | Some fid \<Rightarrow> toString fid \<noteq> replace (utf16 ''-100'') [] src)
           then s
           else processMessage cfg net text s))"

text \<open>\<open>bot.on(message('forward_date'), ...)\<close>; the empty string is falsy.\<close>

definition on_forward_date :: "config \<Rightarrow> transport \<Rightarrow> update \<Rightarrow> state \<Rightarrow> state" where
  "on_forward_date cfg net u s =
     (case forward_date u of
        None \<Rightarrow> s
      | Some d \<Rightarrow>
          (case msg_text u of
             None \<Rightarrow> s
           | Some text \<Rightarrow> if text \<noteq> [] then processMessage cfg net text s else s))"

section \<open>The commands\<close>

definition start :: "state \<Rightarrow> state" where
  "start s =
     s\<lparr>replies := replies s @
         [StartReply (messagesReceived s) (messagesForwarded s) (messagesIgnored s)]\<rparr>"

definition stats :: "config \<Rightarrow> state \<Rightarrow> state" where
  "stats cfg s =
     s\<lparr>replies := replies s @
         [StatsReply (messagesReceived s) (messagesForwarded s) (messagesIgnored s)
            (WEBSITE_API_URL cfg)]\<rparr>"

definition testMessage :: jstring where
  "testMessage =
     utf16 (''script          : BTCUSD'' @ [CHR 0x0A] @
            ''Position        : BUY'' @ [CHR 0x0A] @
            ''Enter Price     : 90827.56'' @ [CHR 0x0A] @
            ''Take Profit 1   : 91528.57'' @ [CHR 0x0A] @
            ''Take Profit 2   : 91995.90'' @ [CHR 0x0A] @
            ''Take Profit 3   : 92696.91'' @ [CHR 0x0A] @
            ''Take Profit 4   : 93631.58'' @ [CHR 0x0A] @
            ''Stoploss        : 89659.22'')"

text \<open>\<open>bot.command('test', ...)\<close>\<close>

definition test_command :: "config \<Rightarrow> transport \<Rightarrow> state \<Rightarrow> state" where
  "test_command cfg net s =
     (let s1 = s\<lparr>replies := replies s @ [TestStarting]\<rparr>;
          (success, s2) = forwardToWebsite cfg net testMessage s1
      in s2\<lparr>replies := replies s2 @ [TestOutcome success]\<rparr>)"

text \<open>
  Telegraf passes an update to the handlers in the order in which they were registered.
  A handler whose filter does not match passes the update on.  A handler whose filter
  matches runs, and the update goes further only if the handler calls \<open>next()\<close>, which
  no handler of this bot does.  The filter of a command is \<open>message('text')\<close> together
  with the command at the start of the text.
\<close>

definition is_command :: "string \<Rightarrow> update \<Rightarrow> bool" where
  "is_command name u = (msg_text u \<noteq> None \<and> command u = Some (utf16 name))"

text \<open>An event is a message update, with what the transport will do if it is asked.\<close>

datatype event = Message transport update

fun handle :: "config \<Rightarrow> event \<Rightarrow> state \<Rightarrow> state" where
  "handle cfg (Message net u) s =
     (if msg_text u \<noteq> None then on_text cfg net u s
      else if forward_date u \<noteq> None then on_forward_date cfg net u s
      else if is_command ''start'' u then start s
      else if is_command ''stats'' u then stats cfg s
      else if is_command ''test'' u then test_command cfg net s
      else s)"

text \<open>The events handled one after the other, and the states the bot can be in.\<close>

fun run :: "config \<Rightarrow> event list \<Rightarrow> state \<Rightarrow> state" where
  "run cfg [] s = s"
| "run cfg (e # es) s = run cfg es (handle cfg e s)"

inductive reachable :: "config \<Rightarrow> state \<Rightarrow> bool" for cfg :: config where
  start_up: "reachable cfg initial"
| handled: "reachable cfg s \<Longrightarrow> reachable cfg (handle cfg e s)"

section \<open>What the patterns say\<close>

text \<open>
  The specification describes the patterns in words.  The following predicates say what a
  piece of text is, without running the matcher: \<open>parts [P, Q, ...] w\<close> holds when \<open>w\<close>
  splits into consecutive pieces, the first satisfying \<open>P\<close>, the next \<open>Q\<close>, and so on;
  \<open>contains P s\<close> holds when some piece of \<open>s\<close> satisfies \<open>P\<close>.
\<close>

definition same_letters :: "string \<Rightarrow> jstring \<Rightarrow> bool" where
  "same_letters cs w = (map canon w = map canon (utf16 cs))"

definition blank :: "jstring \<Rightarrow> bool" where
  "blank w = list_all is_space w"

definition token :: "jstring \<Rightarrow> bool" where
  "token w = (w \<noteq> [] \<and> list_all is_word w)"

definition digit_run :: "jstring \<Rightarrow> bool" where
  "digit_run w = (w \<noteq> [] \<and> list_all is_digit w)"

text \<open>A non-empty run of digits and points, in any number and order.\<close>

definition digits_and_points :: "jstring \<Rightarrow> bool" where
  "digits_and_points w = (w \<noteq> [] \<and> list_all (\<lambda>x. is_digit x \<or> x = 46) w)"

text \<open>
  A digit sequence optionally containing a decimal point, as the specification words it:
  digits and at most one point, with at least one digit.
\<close>

definition decimal :: "jstring \<Rightarrow> bool" where
  "decimal w =
     (list_all (\<lambda>x. is_digit x \<or> x = 46) w \<and> list_ex is_digit w
      \<and> length (filter (\<lambda>x. x = 46) w) \<le> 1)"

definition one_of :: "string list \<Rightarrow> jstring \<Rightarrow> bool" where
  "one_of cs w = list_ex (\<lambda>c. same_letters c w) cs"

definition optional :: "(jstring \<Rightarrow> bool) \<Rightarrow> jstring \<Rightarrow> bool" where
  "optional P w = (w = [] \<or> P w)"

fun parts :: "(jstring \<Rightarrow> bool) list \<Rightarrow> jstring \<Rightarrow> bool" where
  "parts [] w = (w = [])"
| "parts (P # Ps) w = (\<exists>u v. w = u @ v \<and> P u \<and> parts Ps v)"

definition contains :: "(jstring \<Rightarrow> bool) \<Rightarrow> jstring \<Rightarrow> bool" where
  "contains P s = (\<exists>pre m post. s = pre @ m @ post \<and> P m)"

text \<open>The strings that an expression stands for.\<close>

fun denotes :: "rx \<Rightarrow> jstring \<Rightarrow> bool" where
  "denotes Eps w = (w = [])"
| "denotes (One a) w = (\<exists>x. w = [x] \<and> accepts a x)"
| "denotes (Many a) w = list_all (accepts a) w"
| "denotes (Many1 a) w = (w \<noteq> [] \<and> list_all (accepts a) w)"
| "denotes (Seq r1 r2) w = (\<exists>u v. w = u @ v \<and> denotes r1 u \<and> denotes r2 v)"
| "denotes (Alt r1 r2) w = (denotes r1 w \<or> denotes r2 w)"
| "denotes (Opt r) w = (w = [] \<or> denotes r w)"

text \<open>
  A label is its words, in any case, with any amount of whitespace (also none) between
  them; a field is a label, a colon with any amount of whitespace on either side, and a
  value.
\<close>

fun label :: "string list \<Rightarrow> (jstring \<Rightarrow> bool) list" where
  "label [] = []"
| "label [w] = [same_letters w]"
| "label (w # ws) = same_letters w # blank # label ws"

definition field :: "string list \<Rightarrow> (jstring \<Rightarrow> bool) \<Rightarrow> jstring \<Rightarrow> bool" where
  "field ws V = parts (label ws @ [blank, same_letters '':'', blank, V])"

text \<open>The five fields of a new signal, with \<open>V\<close> for what a numeric value is.\<close>

definition new_signal_fields :: "(jstring \<Rightarrow> bool) \<Rightarrow> jstring \<Rightarrow> bool" where
  "new_signal_fields V text =
     (contains (field [''script''] token) text
      \<and> contains (field [''position''] (one_of [''BUY'', ''SELL''])) text
      \<and> contains (field [''enter'', ''price''] V) text
      \<and> contains (field [''take'', ''profit'', ''1''] V) text
      \<and> contains (field [''stoploss''] V) text)"

text \<open>\<open>take profit N from (long|short) signal\<close>\<close>

definition take_profit_phrase :: "jstring \<Rightarrow> bool" where
  "take_profit_phrase =
     parts [same_letters ''take'', blank, same_letters ''profit'', blank, digit_run, blank,
            same_letters ''from'', blank, one_of [''long'', ''short''], blank,
            same_letters ''signal'']"

text \<open>\<open>price : <number> in <token>\<close>, and the same after \<open>at\<close>\<close>

definition price_parts :: "(jstring \<Rightarrow> bool) list" where
  "price_parts =
     [same_letters ''price'', blank, same_letters '':'', blank, digits_and_points, blank,
      same_letters ''in'', blank, token]"

definition price_phrase :: "jstring \<Rightarrow> bool" where
  "price_phrase = parts price_parts"

definition at_price_phrase :: "jstring \<Rightarrow> bool" where
  "at_price_phrase = parts (same_letters ''at'' # blank # price_parts)"

text \<open>
  The status of the downstream answer: the \<open>status\<close> property of the JSON object in the
  response body, when there is one.
\<close>

definition response_status :: "transport \<Rightarrow> json option" where
  "response_status net =
     (case net of Replied (JObj kvs) \<Rightarrow> map_of kvs (utf16 ''status'') | _ \<Rightarrow> None)"

section \<open>Sample inputs\<close>

definition unrestricted :: config where
  "unrestricted =
     \<lparr>SOURCE_CHANNEL_ID = [], WEBSITE_API_URL = utf16 ''http://localhost:3000'',
      INGEST_API_KEY = utf16 ''your-secret-key''\<rparr>"

definition restricted :: config where
  "restricted = unrestricted\<lparr>SOURCE_CHANNEL_ID := utf16 ''-1001234567890''\<rparr>"

definition hello :: jstring where
  "hello = utf16 ''Hello, check out this link https://example.com''"

definition sample_signal :: jstring where
  "sample_signal =
     utf16 (''script : BTCUSD Position : BUY Enter Price : 90827.56 '' @
            ''Take Profit 1 : 91528.57 Stoploss : 89659.22'')"

definition sample_without_stop :: jstring where
  "sample_without_stop =
     utf16 (''script : BTCUSD Position : BUY Enter Price : 90827.56 '' @
            ''Take Profit 1 : 91528.57 Stoploss : .'')"

definition tp_with_at :: jstring where
  "tp_with_at = utf16 ''Take Profit 2 From Long Signal at Price : 91995.90 in BTCUSD''"

definition tp_without_at :: jstring where
  "tp_without_at = utf16 ''take profit 13 from short signal price:0.5 in eurusd''"

definition message_in :: "int \<Rightarrow> jstring \<Rightarrow> update" where
  "message_in chat text =
     \<lparr>chat_id = chat, forward_from_chat = None, forward_date = None, msg_text = Some text,
      command = None\<rparr>"

definition forwarded_in :: "int \<Rightarrow> int \<Rightarrow> jstring \<Rightarrow> update" where
  "forwarded_in chat origin text =
     \<lparr>chat_id = chat, forward_from_chat = Some origin, forward_date = Some 1700000000,
      msg_text = Some text, command = None\<rparr>"

definition status_reply :: "string \<Rightarrow> transport" where
  "status_reply st = Replied (JObj [(utf16 ''status'', JStr (utf16 st))])"

text \<open>The message \<open>/test\<close> that a user sends to invoke the test command.\<close>

definition test_message_in :: "int \<Rightarrow> update" where
  "test_message_in chat =
     \<lparr>chat_id = chat, forward_from_chat = None, forward_date = None,
      msg_text = Some (utf16 ''/test''), command = Some (utf16 ''test'')\<rparr>"

text \<open>
  The response body
  \<open>{"status":"success","signal":{"script":{"toString":1}}}\<close>.
\<close>

definition unprintable_reply :: transport where
  "unprintable_reply =
     Replied (JObj [(utf16 ''status'', JStr (utf16 ''success'')),
                    (utf16 ''signal'',
                       JObj [(utf16 ''script'', JObj [(utf16 ''toString'', JNum (utf16 ''1''))])])])"

section \<open>The matcher finds what the expressions stand for\<close>

lemma ends_Many:
  "t \<in> set (ends (Many a) s) \<longleftrightarrow> (\<exists>m. s = m @ t \<and> list_all (accepts a) m)"
proof (induction s)
  case Nil
  then show ?case by auto
next
  case (Cons x xs)
  show ?case
  proof
    assume "t \<in> set (ends (Many a) (x # xs))"
    then consider "accepts a x" "t \<in> set (ends (Many a) xs)" | "t = x # xs"
      by (auto split: if_splits)
    then show "\<exists>m. x # xs = m @ t \<and> list_all (accepts a) m"
    proof cases
      case 1
      with Cons.IH obtain m where "xs = m @ t" "list_all (accepts a) m" by blast
      with 1 have "x # xs = (x # m) @ t \<and> list_all (accepts a) (x # m)" by simp
      then show ?thesis by blast
    next
      case 2
      then have "x # xs = [] @ t \<and> list_all (accepts a) []" by simp
      then show ?thesis by blast
    qed
  next
    assume "\<exists>m. x # xs = m @ t \<and> list_all (accepts a) m"
    then obtain m where m: "x # xs = m @ t" "list_all (accepts a) m" by blast
    show "t \<in> set (ends (Many a) (x # xs))"
    proof (cases m)
      case Nil
      with m have "t = x # xs" by simp
      then show ?thesis by simp
    next
      case (Cons y ys)
      with m have "accepts a x" "xs = ys @ t" "list_all (accepts a) ys" by auto
      with Cons.IH show ?thesis by auto
    qed
  qed
qed

lemma ends_iff: "t \<in> set (ends r s) \<longleftrightarrow> (\<exists>m. s = m @ t \<and> denotes r m)"
proof (induction r arbitrary: s t)
  case Eps
  show ?case by auto
next
  case (One a)
  show ?case by (cases s) auto
next
  case (Many a)
  show ?case by (simp add: ends_Many)
next
  case (Many1 a)
  show ?case
  proof (cases s)
    case Nil
    then show ?thesis by auto
  next
    case (Cons x xs)
    show ?thesis
    proof
      assume "t \<in> set (ends (Many1 a) s)"
      with Cons have "accepts a x" "t \<in> set (ends (Many a) xs)" by (auto split: if_splits)
      then obtain m where "xs = m @ t" "list_all (accepts a) m" using ends_Many by blast
      with \<open>accepts a x\<close> Cons have "s = (x # m) @ t \<and> denotes (Many1 a) (x # m)" by simp
      then show "\<exists>m. s = m @ t \<and> denotes (Many1 a) m" by blast
    next
      assume "\<exists>m. s = m @ t \<and> denotes (Many1 a) m"
      then obtain m where m: "s = m @ t" "m \<noteq> []" "list_all (accepts a) m" by auto
      then obtain y ys where "m = y # ys" by (cases m) auto
      with m Cons have "accepts a x" "xs = ys @ t" "list_all (accepts a) ys" by auto
      then have "t \<in> set (ends (Many a) xs)" using ends_Many by blast
      with \<open>accepts a x\<close> Cons show "t \<in> set (ends (Many1 a) s)" by simp
    qed
  qed
next
  case (Seq r1 r2)
  show ?case
  proof
    assume "t \<in> set (ends (Seq r1 r2) s)"
    then obtain t1 where "t1 \<in> set (ends r1 s)" "t \<in> set (ends r2 t1)" by auto
    with Seq obtain m1 m2 where "s = m1 @ t1" "denotes r1 m1" "t1 = m2 @ t" "denotes r2 m2"
      by blast
    then have "s = (m1 @ m2) @ t \<and> denotes (Seq r1 r2) (m1 @ m2)" by auto
    then show "\<exists>m. s = m @ t \<and> denotes (Seq r1 r2) m" by blast
  next
    assume "\<exists>m. s = m @ t \<and> denotes (Seq r1 r2) m"
    then obtain m1 m2 where m: "s = (m1 @ m2) @ t" "denotes r1 m1" "denotes r2 m2" by auto
    then have "m2 @ t \<in> set (ends r1 s)" using Seq.IH(1) by auto
    moreover have "t \<in> set (ends r2 (m2 @ t))" using m Seq.IH(2) by auto
    ultimately show "t \<in> set (ends (Seq r1 r2) s)" by auto
  qed
next
  case (Alt r1 r2)
  then show ?case by auto
next
  case (Opt r)
  then show ?case by auto
qed

lemma test_iff: "test r s \<longleftrightarrow> contains (denotes r) s"
proof (induction s)
  case Nil
  have "ends r [] \<noteq> [] \<longleftrightarrow> (\<exists>t. t \<in> set (ends r []))" by (cases "ends r []") auto
  then show ?case by (auto simp: contains_def ends_iff)
next
  case (Cons x xs)
  have e: "ends r (x # xs) \<noteq> [] \<longleftrightarrow> (\<exists>t. t \<in> set (ends r (x # xs)))"
    by (cases "ends r (x # xs)") auto
  show ?case
  proof
    assume "test r (x # xs)"
    then consider "ends r (x # xs) \<noteq> []" | "test r xs" by auto
    then show "contains (denotes r) (x # xs)"
    proof cases
      case 1
      with e obtain m t where "x # xs = m @ t" "denotes r m" using ends_iff by blast
      then have "x # xs = [] @ m @ t \<and> denotes r m" by simp
      then show ?thesis unfolding contains_def by blast
    next
      case 2
      with Cons obtain pre m post where "xs = pre @ m @ post" "denotes r m"
        unfolding contains_def by blast
      then have "x # xs = (x # pre) @ m @ post \<and> denotes r m" by simp
      then show ?thesis unfolding contains_def by blast
    qed
  next
    assume "contains (denotes r) (x # xs)"
    then obtain pre m post where p: "x # xs = pre @ m @ post" "denotes r m"
      unfolding contains_def by blast
    show "test r (x # xs)"
    proof (cases pre)
      case Nil
      with p have "post \<in> set (ends r (x # xs))" using ends_iff by auto
      with e show ?thesis by auto
    next
      case (Cons y ys)
      with p have "xs = ys @ m @ post" by simp
      with p have "contains (denotes r) xs" unfolding contains_def by blast
      with Cons.IH show ?thesis by simp
    qed
  qed
qed

lemma denotes_One_Seq:
  "denotes (Seq (One a) r) w \<longleftrightarrow> (\<exists>x v. w = x # v \<and> accepts a x \<and> denotes r v)"
proof
  assume "denotes (Seq (One a) r) w"
  then obtain u v x where "w = u @ v" "u = [x]" "accepts a x" "denotes r v" by auto
  then have "w = x # v \<and> accepts a x \<and> denotes r v" by simp
  then show "\<exists>x v. w = x # v \<and> accepts a x \<and> denotes r v" by blast
next
  assume "\<exists>x v. w = x # v \<and> accepts a x \<and> denotes r v"
  then obtain x v where "w = [x] @ v" "accepts a x" "denotes r v" by auto
  then have "w = [x] @ v \<and> denotes (One a) [x] \<and> denotes r v" by simp
  then show "denotes (Seq (One a) r) w" unfolding denotes.simps(5) by blast
qed

lemma same_letters_Nil: "same_letters [] w \<longleftrightarrow> w = []"
  by (simp add: same_letters_def utf16_def)

lemma same_letters_Cons:
  "same_letters (c # cs) w \<longleftrightarrow>
     (\<exists>x v. w = x # v \<and> canon x = canon (of_char c) \<and> same_letters cs v)"
  by (cases w) (auto simp: same_letters_def utf16_def)

lemma denotes_lit: "denotes (lit cs) = same_letters cs"
proof
  fix w show "denotes (lit cs) w = same_letters cs w"
  proof (induction cs arbitrary: w)
    case Nil
    show ?case by (simp add: same_letters_Nil)
  next
    case (Cons c cs)
    have "denotes (lit (c # cs)) w \<longleftrightarrow>
            (\<exists>x v. w = x # v \<and> canon x = canon (of_char c) \<and> denotes (lit cs) v)"
      by (simp only: lit.simps denotes_One_Seq accepts.simps)
    with Cons show ?case by (simp add: same_letters_Cons)
  qed
qed

lemma denotes_cat: "denotes (cat rs) = parts (map denotes rs)"
proof
  fix w show "denotes (cat rs) w = parts (map denotes rs) w"
    by (induction rs arbitrary: w) auto
qed

lemma denotes_spaces: "denotes (Many Space) = blank"
  by (rule ext) (simp add: blank_def list_all_iff)

lemma denotes_token: "denotes (Many1 Word) = token"
  by (rule ext) (simp add: token_def list_all_iff)

lemma denotes_digit_run: "denotes (Many1 Digit) = digit_run"
  by (rule ext) (simp add: digit_run_def list_all_iff)

lemma accepts_point: "accepts (Or Digit (Chr CHR ''.'')) = (\<lambda>x. is_digit x \<or> x = 46)"
  by (rule ext) (auto simp: canon_def)

lemma denotes_number: "denotes number = digits_and_points"
  by (rule ext) (simp add: digits_and_points_def number_def accepts_point del: accepts.simps)

lemma denotes_Alt_lit: "denotes (Alt (lit a) (lit b)) = one_of [a, b]"
  by (rule ext) (simp add: one_of_def denotes_lit)

lemma denotes_Opt: "denotes (Opt r) = optional (denotes r)"
  by (rule ext) (simp add: optional_def)

lemmas denotes_atoms =
  denotes_cat denotes_lit denotes_spaces denotes_token denotes_digit_run denotes_number
  denotes_Alt_lit denotes_Opt

lemma full_iff: "full r s \<longleftrightarrow> denotes r s"
  by (simp add: full_def ends_iff)

section \<open>The patterns of the classifier\<close>

lemma test_script: "test re_script text \<longleftrightarrow> contains (field [''script''] token) text"
  by (simp only: test_iff re_script_def field_def denotes_atoms list.map label.simps append.simps)

lemma test_position:
  "test re_position text \<longleftrightarrow> contains (field [''position''] (one_of [''BUY'', ''SELL''])) text"
  by (simp only: test_iff re_position_def field_def denotes_atoms list.map label.simps append.simps)

lemma test_enter_price:
  "test re_enter_price text \<longleftrightarrow> contains (field [''enter'', ''price''] digits_and_points) text"
  by (simp only: test_iff re_enter_price_def field_def denotes_atoms list.map label.simps append.simps)

lemma test_take_profit_1:
  "test re_take_profit_1 text \<longleftrightarrow>
     contains (field [''take'', ''profit'', ''1''] digits_and_points) text"
  by (simp only: test_iff re_take_profit_1_def field_def denotes_atoms list.map label.simps append.simps)

lemma test_stoploss:
  "test re_stoploss text \<longleftrightarrow> contains (field [''stoploss''] digits_and_points) text"
  by (simp only: test_iff re_stoploss_def field_def denotes_atoms list.map label.simps append.simps)

lemma test_tp_from: "test re_tp_from text \<longleftrightarrow> contains take_profit_phrase text"
  by (simp only: test_iff re_tp_from_def take_profit_phrase_def denotes_atoms list.map)

lemma test_price_in: "test re_price_in text \<longleftrightarrow> contains price_phrase text"
  by (simp only: test_iff re_price_in_def price_phrase_def price_parts_def denotes_atoms list.map)

lemma test_at_price_in:
  "test re_at_price_in text \<longleftrightarrow>
     contains (parts (optional (parts [same_letters ''at'', blank]) # price_parts)) text"
  by (simp only: test_iff re_at_price_in_def price_parts_def denotes_atoms list.map)

lemma partsI: "P u \<Longrightarrow> parts Ps v \<Longrightarrow> parts (P # Ps) (u @ v)"
  by auto

lemma parts_snoc: "parts (Ps @ [V]) m \<longleftrightarrow> (\<exists>u v. m = u @ v \<and> parts Ps u \<and> V v)"
proof (induction Ps arbitrary: m)
  case Nil
  show ?case by simp
next
  case (Cons P Ps)
  show ?case
  proof
    assume "parts ((P # Ps) @ [V]) m"
    then obtain a b where ab: "m = a @ b" "P a" "parts (Ps @ [V]) b" by auto
    with Cons obtain u v where "b = u @ v" "parts Ps u" "V v" by blast
    with ab have "m = (a @ u) @ v \<and> parts (P # Ps) (a @ u) \<and> V v" by auto
    then show "\<exists>u v. m = u @ v \<and> parts (P # Ps) u \<and> V v" by blast
  next
    assume "\<exists>u v. m = u @ v \<and> parts (P # Ps) u \<and> V v"
    then obtain a u v where a: "m = (a @ u) @ v" "P a" "parts Ps u" "V v" by auto
    with Cons have "parts (Ps @ [V]) (u @ v)" by blast
    with a have "m = a @ (u @ v) \<and> P a \<and> parts (Ps @ [V]) (u @ v)" by simp
    then show "parts ((P # Ps) @ [V]) m" unfolding append_Cons parts.simps by blast
  qed
qed

lemma contains_parts_shorten:
  assumes "contains (parts (Ps @ [V])) text"
    and "\<And>v. V v \<Longrightarrow> \<exists>a rest. v = a @ rest \<and> W a"
  shows "contains (parts (Ps @ [W])) text"
proof -
  from assms(1) obtain pre u v post where t: "text = pre @ (u @ v) @ post" "parts Ps u" "V v"
    unfolding contains_def parts_snoc by blast
  from assms(2) [OF t(3)] obtain a rest where v: "v = a @ rest" "W a" by blast
  from t v have "text = pre @ (u @ a) @ (rest @ post) \<and> parts (Ps @ [W]) (u @ a)"
    unfolding parts_snoc by auto
  then show ?thesis unfolding contains_def by blast
qed

lemma decimal_head:
  assumes "decimal v"
  shows "\<exists>a rest. v = a @ rest \<and> parts [optional (same_letters ''.''), denotes (One Digit)] a"
proof (cases v)
  case Nil
  with assms show ?thesis by (simp add: decimal_def)
next
  case (Cons x xs)
  show ?thesis
  proof (cases "is_digit x")
    case True
    then have "parts [denotes (One Digit)] ([x] @ [])"
      by (intro partsI) simp_all
    then have "parts [optional (same_letters ''.''), denotes (One Digit)] ([] @ [x] @ [])"
      by (intro partsI) (simp_all add: optional_def)
    with Cons have
      "v = [x] @ xs \<and> parts [optional (same_letters ''.''), denotes (One Digit)] [x]"
      by simp
    then show ?thesis by blast
  next
    case False
    with assms Cons have x: "x = 46" and xs: "list_all is_digit xs" "list_ex is_digit xs"
      by (auto simp: decimal_def list_all_iff list_ex_iff filter_empty_conv split: if_splits)
    then obtain d ds where d: "xs = d # ds" "is_digit d" by (cases xs) auto
    have "same_letters ''.'' [46]" by (simp add: same_letters_def utf16_def)
    moreover from d have "parts [denotes (One Digit)] ([d] @ [])"
      by (intro partsI) simp_all
    ultimately have "parts [optional (same_letters ''.''), denotes (One Digit)] ([46] @ [d] @ [])"
      by (intro partsI) (simp_all add: optional_def)
    moreover have "v = ([46] @ [d] @ []) @ ds" using Cons x d by simp
    ultimately show ?thesis by blast
  qed
qed

lemma strict_stoploss_probe:
  assumes "contains (field [''stoploss''] decimal) text"
  shows "test (cat [lit ''stoploss'', Many Space, lit '':'', Many Space,
                    cat [Opt (lit ''.''), One Digit]]) text"
proof -
  from assms have
    "contains (parts ([same_letters ''stoploss'', blank, same_letters '':'', blank] @ [decimal])) text"
    by (simp add: field_def)
  from contains_parts_shorten [OF this decimal_head] have
    "contains (parts ([same_letters ''stoploss'', blank, same_letters '':'', blank] @
       [parts [optional (same_letters ''.''), denotes (One Digit)]])) text" .
  then show ?thesis
    by (simp only: test_iff denotes_atoms list.map append.simps)
qed

lemma contains_mono:
  assumes "contains P text" and "\<And>m. P m \<Longrightarrow> Q m"
  shows "contains Q text"
  using assms unfolding contains_def by blast

lemma parts_optional_skip: "parts Ps m \<Longrightarrow> parts (optional Q # Ps) m"
proof -
  assume "parts Ps m"
  then have "parts (optional Q # Ps) ([] @ m)"
    by (intro partsI) (simp_all add: optional_def)
  then show ?thesis by simp
qed

lemma parts_optional_take:
  assumes "parts (A # B # Ps) m"
  shows "parts (optional (parts [A, B]) # Ps) m"
proof -
  from assms obtain a b r where m: "m = a @ b @ r" "A a" "B b" "parts Ps r" by auto
  then have "parts [A, B] (a @ b @ [])" by (intro partsI) simp_all
  then have "optional (parts [A, B]) (a @ b)" by (simp add: optional_def)
  with m have "parts (optional (parts [A, B]) # Ps) ((a @ b) @ r)" by (intro partsI)
  with m show ?thesis by simp
qed

lemma price_phrase_test:
  assumes "contains price_phrase text \<or> contains at_price_phrase text"
  shows "test re_at_price_in text"
  using assms unfolding test_at_price_in price_phrase_def at_price_phrase_def
  by (auto intro: contains_mono parts_optional_skip parts_optional_take)

text \<open>Evaluating the matcher on a given text.\<close>

lemmas eval_test =
  re_script_def re_position_def re_enter_price_def re_take_profit_1_def re_stoploss_def
  re_tp_from_def re_at_price_in_def re_hit_sl_def re_price_in_def
  number_def utf16_def is_digit_def is_word_def is_space_def canon_def

lemma hello_no_signal: "\<not> isValidSignalMessage hello"
  by (simp add: isValidSignalMessage_def isNewSignal_def isTpUpdate_def isSlHit_def hello_def
        eval_test)

lemma sample_signal_valid: "isValidSignalMessage sample_signal"
  by (simp add: isValidSignalMessage_def isNewSignal_def sample_signal_def eval_test)

lemma testMessage_new_signal: "isNewSignal testMessage"
  by (simp add: isNewSignal_def testMessage_def eval_test)

lemma toString_examples:
  "toString (- 1234567890) = utf16 ''-1234567890''"
  "toString (- 1001234567890) = utf16 ''-1001234567890''"
  "toString 42 = utf16 ''42''"
  by (simp_all add: toString_def digits.simps utf16_def)

lemma replace_examples:
  "replace (utf16 ''-100'') (utf16 ''-'') (utf16 ''-1001234567890'') = utf16 ''-1234567890''"
  "replace (utf16 ''-100'') [] (utf16 ''-1001234567890'') = utf16 ''1234567890''"
  by (simp_all add: utf16_def)

section \<open>The forwarder and the dispatcher\<close>

lemma opt_prop_no_throw: "\<exists>v. opt_prop x k = Inr v"
  by (induction x k rule: opt_prop.induct) simp_all

lemma forward_fst: "fst (forwardToWebsite cfg net text s) = succeeds net"
  by (simp add: forwardToWebsite_def succeeds_def Let_def split: sum.splits prod.splits)

lemma succeeds_status:
  assumes "succeeds net"
  shows "response_status net = Some (JStr (utf16 ''success''))"
proof (cases net)
  case (Replied data)
  with assms show ?thesis
    by (cases data)
      (auto simp: succeeds_def try_body_def response_status_def
         split: sum.splits if_splits)
qed (use assms in \<open>simp_all add: succeeds_def try_body_def\<close>)

lemma succeeds_status_reply: "succeeds (status_reply ''success'')"
  by (simp add: succeeds_def try_body_def status_reply_def utf16_def)

lemma forward_counters:
  "messagesReceived (snd (forwardToWebsite cfg net text s)) = messagesReceived s
   \<and> messagesForwarded (snd (forwardToWebsite cfg net text s)) = messagesForwarded s
   \<and> messagesIgnored (snd (forwardToWebsite cfg net text s)) = messagesIgnored s
   \<and> requests (snd (forwardToWebsite cfg net text s)) = requests s @ [ingest_request cfg text]
   \<and> replies (snd (forwardToWebsite cfg net text s)) = replies s"
  by (simp add: forwardToWebsite_def Let_def emit_def split: sum.splits prod.splits)

lemma process_ignored:
  "\<not> isValidSignalMessage text \<Longrightarrow>
     processMessage cfg net text s =
       s\<lparr>messagesReceived := messagesReceived s + 1, messagesIgnored := messagesIgnored s + 1,
         console := console s @ [(console_log, IgnoredNonSignal (messagesIgnored s + 1))]\<rparr>"
  by (simp add: processMessage_def Let_def emit_def)

lemma process_counters:
  "messagesReceived (processMessage cfg net text s) = messagesReceived s + 1
   \<and> messagesForwarded (processMessage cfg net text s) =
       messagesForwarded s +
         (if isValidSignalMessage text \<and> succeeds net then 1 else 0)
   \<and> messagesIgnored (processMessage cfg net text s) =
       messagesIgnored s + (if isValidSignalMessage text then 0 else 1)"
proof (cases "isValidSignalMessage text")
  case False
  then show ?thesis by (simp add: process_ignored)
next
  case True
  obtain b s2 where f: "forwardToWebsite cfg net text
      (s\<lparr>messagesReceived := messagesReceived s + 1\<rparr>) = (b, s2)"
    by (cases "forwardToWebsite cfg net text (s\<lparr>messagesReceived := messagesReceived s + 1\<rparr>)")
  from forward_fst [of cfg net "text" "s\<lparr>messagesReceived := messagesReceived s + 1\<rparr>"] f
  have b: "b \<longleftrightarrow> succeeds net" by simp
  from forward_counters [of cfg net "text" "s\<lparr>messagesReceived := messagesReceived s + 1\<rparr>"] f
  have c: "messagesReceived s2 = messagesReceived s + 1"
    "messagesForwarded s2 = messagesForwarded s" "messagesIgnored s2 = messagesIgnored s"
    by simp_all
  from True f b c show ?thesis
    by (simp add: processMessage_def Let_def emit_def)
qed

lemma on_text_cases:
  "on_text cfg net u s = s \<or> (\<exists>text. on_text cfg net u s = processMessage cfg net text s)"
  by (auto simp: on_text_def Let_def split: option.splits)

lemma on_forward_date_cases:
  "on_forward_date cfg net u s = s
   \<or> (\<exists>text. on_forward_date cfg net u s = processMessage cfg net text s)"
  by (auto simp: on_forward_date_def split: option.splits)

lemma test_command_frame:
  "messagesReceived (test_command cfg net s) = messagesReceived s
   \<and> messagesForwarded (test_command cfg net s) = messagesForwarded s
   \<and> messagesIgnored (test_command cfg net s) = messagesIgnored s
   \<and> requests (test_command cfg net s) = requests s @ [ingest_request cfg testMessage]"
proof -
  obtain b s2 where f:
    "forwardToWebsite cfg net testMessage (s\<lparr>replies := replies s @ [TestStarting]\<rparr>) = (b, s2)"
    by (cases "forwardToWebsite cfg net testMessage (s\<lparr>replies := replies s @ [TestStarting]\<rparr>)")
  from forward_counters [of cfg net testMessage "s\<lparr>replies := replies s @ [TestStarting]\<rparr>"] f
  show ?thesis by (simp add: test_command_def Let_def)
qed

section \<open>The claims about the classifier\<close>

text \<open>
  Claim C1, as it is written, with a numeric value read as a decimal numeral: it fails.
  The text below has the five labels, and the classifier takes it for a new signal, but
  the value after \<open>Stoploss :\<close> is a lone point, so the text has no stoploss label
  with a numeric value.
\<close>

theorem new_signal_without_number:
  "isNewSignal sample_without_stop \<and> \<not> new_signal_fields decimal sample_without_stop"
proof
  show "isNewSignal sample_without_stop"
    by (simp add: isNewSignal_def sample_without_stop_def eval_test)
  have "\<not> test (cat [lit ''stoploss'', Many Space, lit '':'', Many Space,
                    cat [Opt (lit ''.''), One Digit]]) sample_without_stop"
    by (simp add: sample_without_stop_def eval_test)
  then have "\<not> contains (field [''stoploss''] decimal) sample_without_stop"
    using strict_stoploss_probe by blast
  then show "\<not> new_signal_fields decimal sample_without_stop"
    by (simp add: new_signal_fields_def)
qed

text \<open>
  Claim C1, amended: for every text, the new-signal family matches if and only if the text
  contains all five fields, in any case and with any whitespace around each colon and
  between the words of a label: \<open>script\<close> with a token, \<open>position\<close> with \<open>BUY\<close> or
  \<open>SELL\<close>, and \<open>enter price\<close>, \<open>take profit 1\<close> and \<open>stoploss\<close> each with a value
  that is a non-empty run of digits and points.  A text that lacks one of the five is
  accepted by the classifier only if the take-profit or the stop-loss family matches.
\<close>

theorem new_signal_iff_fields:
  "(isNewSignal text \<longleftrightarrow> new_signal_fields digits_and_points text)
   \<and> (isValidSignalMessage text \<longleftrightarrow>
        new_signal_fields digits_and_points text \<or> isTpUpdate text \<or> isSlHit text)"
  by (simp add: isValidSignalMessage_def isNewSignal_def new_signal_fields_def test_script
        test_position test_enter_price test_take_profit_1 test_stoploss)

theorem new_signal_iff_fields_witness:
  "isNewSignal sample_signal \<and> new_signal_fields digits_and_points sample_signal
   \<and> \<not> isNewSignal hello \<and> \<not> new_signal_fields digits_and_points hello"
proof -
  have "isNewSignal sample_signal"
    by (simp add: isNewSignal_def sample_signal_def eval_test)
  moreover have "\<not> isNewSignal hello"
    by (simp add: isNewSignal_def hello_def eval_test)
  ultimately show ?thesis
    using new_signal_iff_fields [of sample_signal] new_signal_iff_fields [of hello] by simp
qed

text \<open>
  Claim C6, as it is written: it fails.  The numeric sub-pattern \<open>[\d.]+\<close> accepts
  \<open>1.2.3\<close>, which has two points, and a lone point, which has no digit; neither is a
  digit sequence optionally containing a decimal point.
\<close>

theorem number_accepts_more_than_decimals:
  "full number (utf16 ''1.2.3'') \<and> \<not> decimal (utf16 ''1.2.3'')
   \<and> full number (utf16 ''.'') \<and> \<not> decimal (utf16 ''.'')"
  by (simp add: full_def number_def utf16_def is_digit_def canon_def decimal_def)

text \<open>
  Claim C6, amended: the numeric sub-pattern, which is the same in every pattern family,
  accepts exactly the non-empty strings made of digits and points only, whatever the
  number of points and also without any digit; so it accepts no sign, no exponent and no
  thousands separator.
\<close>

theorem number_accepts:
  "full number s \<longleftrightarrow> s \<noteq> [] \<and> list_all (\<lambda>x. is_digit x \<or> x = 46) s"
  by (simp add: full_iff denotes_number digits_and_points_def)

theorem number_accepts_witness:
  "full number (utf16 ''90827.56'') \<and> \<not> full number (utf16 ''-5'')
   \<and> \<not> full number (utf16 ''1e5'') \<and> \<not> full number (utf16 ''1,000'')"
  using number_accepts [of "utf16 ''90827.56''"] number_accepts [of "utf16 ''-5''"]
    number_accepts [of "utf16 ''1e5''"] number_accepts [of "utf16 ''1,000''"]
  by (simp add: utf16_def is_digit_def)

text \<open>
  Claim C7: every text that contains a phrase \<open>take profit N from (long|short) signal\<close>
  and a phrase \<open>price : <number> in <token>\<close> is accepted by the classifier, through
  the take-profit family, whether \<open>at\<close> stands before \<open>price\<close> or not.  The words
  may be in any case and separated by any whitespace, \<open>N\<close> is a run of digits, and the
  number is any non-empty run of digits and points, which every decimal numeral is.
\<close>

theorem tp_update_matches:
  assumes "contains take_profit_phrase text"
    and "contains price_phrase text \<or> contains at_price_phrase text"
  shows "isTpUpdate text \<and> isValidSignalMessage text"
  using assms price_phrase_test
  by (simp add: isValidSignalMessage_def isTpUpdate_def test_tp_from)

theorem tp_update_matches_witness:
  "contains take_profit_phrase tp_with_at \<and> contains at_price_phrase tp_with_at
   \<and> isValidSignalMessage tp_with_at
   \<and> contains take_profit_phrase tp_without_at \<and> contains price_phrase tp_without_at
   \<and> \<not> contains at_price_phrase tp_without_at
   \<and> isValidSignalMessage tp_without_at"
proof -
  have at_rx: "contains at_price_phrase t \<longleftrightarrow>
      test (cat [lit ''at'', Many Space, lit ''price'', Many Space, lit '':'', Many Space, number,
                 Many Space, lit ''in'', Many Space, Many1 Word]) t" for t
    by (simp only: test_iff at_price_phrase_def price_parts_def denotes_atoms list.map)
  have a1: "contains take_profit_phrase tp_with_at"
    unfolding test_tp_from [symmetric] by (simp add: tp_with_at_def eval_test)
  have a2: "contains at_price_phrase tp_with_at"
    unfolding at_rx by (simp add: tp_with_at_def eval_test)
  have b1: "contains take_profit_phrase tp_without_at"
    unfolding test_tp_from [symmetric] by (simp add: tp_without_at_def eval_test)
  have b2: "contains price_phrase tp_without_at"
    unfolding test_price_in [symmetric] by (simp add: tp_without_at_def eval_test)
  have b3: "\<not> contains at_price_phrase tp_without_at"
    unfolding at_rx by (simp add: tp_without_at_def eval_test)
  from a2 have a2': "contains price_phrase tp_with_at \<or> contains at_price_phrase tp_with_at" ..
  from b2 have b2': "contains price_phrase tp_without_at \<or> contains at_price_phrase tp_without_at" ..
  show ?thesis
    using a1 a2 b1 b2 b3 tp_update_matches [OF a1 a2'] tp_update_matches [OF b1 b2'] by simp
qed

section \<open>The claims about the forwarder and the dispatcher\<close>

lemma handle_on_text: "handle cfg (Message net u) s = on_text cfg net u s"
  by (cases "msg_text u")
    (simp_all add: on_text_def on_forward_date_def is_command_def split: option.splits)

lemma handle_invariant:
  assumes "messagesForwarded s + messagesIgnored s \<le> messagesReceived s"
  shows "messagesForwarded (handle cfg e s) + messagesIgnored (handle cfg e s)
           \<le> messagesReceived (handle cfg e s)"
proof (cases e)
  case (Message net u)
  with assms on_text_cases [of cfg net u s] process_counters show ?thesis
    unfolding Message handle_on_text by auto
qed

lemma process_requests:
  "requests (processMessage cfg net text s) =
     (if isValidSignalMessage text then requests s @ [ingest_request cfg text] else requests s)"
proof (cases "isValidSignalMessage text")
  case False
  then show ?thesis by (simp add: process_ignored)
next
  case True
  obtain b s2 where f: "forwardToWebsite cfg net text
      (s\<lparr>messagesReceived := messagesReceived s + 1\<rparr>) = (b, s2)"
    by (cases "forwardToWebsite cfg net text (s\<lparr>messagesReceived := messagesReceived s + 1\<rparr>)")
  from forward_counters [of cfg net "text" "s\<lparr>messagesReceived := messagesReceived s + 1\<rparr>"] f
  have "requests s2 = requests s @ [ingest_request cfg text]" by simp
  with True f show ?thesis by (simp add: processMessage_def Let_def emit_def)
qed

text \<open>
  Claim C2: in every state that the dispatcher can reach, forwarded plus ignored is at
  most received.  Handling a message adds one to received and then at most one to either
  forwarded or ignored, and the text handler either leaves the state as it is (the
  message is discarded) or handles the message.
\<close>

theorem counters_invariant:
  assumes "reachable cfg s"
  shows "messagesForwarded s + messagesIgnored s \<le> messagesReceived s
    \<and> (\<forall>net text.
          messagesReceived (processMessage cfg net text s) = messagesReceived s + 1
          \<and> (messagesForwarded (processMessage cfg net text s) = messagesForwarded s + 1
                \<and> messagesIgnored (processMessage cfg net text s) = messagesIgnored s
              \<or> messagesForwarded (processMessage cfg net text s) = messagesForwarded s
                \<and> messagesIgnored (processMessage cfg net text s) = messagesIgnored s + 1
              \<or> messagesForwarded (processMessage cfg net text s) = messagesForwarded s
                \<and> messagesIgnored (processMessage cfg net text s) = messagesIgnored s))
    \<and> (\<forall>net u. on_text cfg net u s = s
          \<or> (\<exists>text. on_text cfg net u s = processMessage cfg net text s))"
proof -
  from assms have "messagesForwarded s + messagesIgnored s \<le> messagesReceived s"
  proof (induction rule: reachable.induct)
    case start_up
    show ?case by (simp add: initial_def)
  next
    case (handled s e)
    then show ?case by (simp add: handle_invariant)
  qed
  moreover have "messagesReceived (processMessage cfg net t s) = messagesReceived s + 1
          \<and> (messagesForwarded (processMessage cfg net t s) = messagesForwarded s + 1
                \<and> messagesIgnored (processMessage cfg net t s) = messagesIgnored s
              \<or> messagesForwarded (processMessage cfg net t s) = messagesForwarded s
                \<and> messagesIgnored (processMessage cfg net t s) = messagesIgnored s + 1
              \<or> messagesForwarded (processMessage cfg net t s) = messagesForwarded s
                \<and> messagesIgnored (processMessage cfg net t s) = messagesIgnored s)"
    for net t
    using process_counters [of cfg net t s] by simp
  ultimately show ?thesis using on_text_cases by blast
qed

theorem counters_invariant_witness:
  "reachable unrestricted
     (handle unrestricted (Message Unreachable (message_in 42 hello))
        (handle unrestricted (Message (status_reply ''success'') (message_in 42 sample_signal))
           initial))
   \<and> messagesForwarded
       (handle unrestricted (Message Unreachable (message_in 42 hello))
          (handle unrestricted (Message (status_reply ''success'') (message_in 42 sample_signal))
             initial))
     + messagesIgnored
       (handle unrestricted (Message Unreachable (message_in 42 hello))
          (handle unrestricted (Message (status_reply ''success'') (message_in 42 sample_signal))
             initial))
     \<le> messagesReceived
       (handle unrestricted (Message Unreachable (message_in 42 hello))
          (handle unrestricted (Message (status_reply ''success'') (message_in 42 sample_signal))
             initial))"
proof -
  have r: "reachable unrestricted
     (handle unrestricted (Message Unreachable (message_in 42 hello))
        (handle unrestricted (Message (status_reply ''success'') (message_in 42 sample_signal))
           initial))"
    by (intro reachable.intros)
  from counters_invariant [OF r] r show ?thesis by blast
qed

text \<open>
  Claim C3 fails on the code.  The downstream answers with status \<open>success\<close>, and the
  \<open>script\<close> of its signal is an object with a property \<open>toString\<close>.  Writing the
  line of the successful forward converts that object to a string, which throws inside
  \<open>try\<close>; the forwarder catches the exception, writes a failure and returns false, and
  the forwarded counter stays as it was.
\<close>

theorem success_reply_reported_failed:
  "response_status unprintable_reply = Some (JStr (utf16 ''success''))
   \<and> forwardToWebsite unrestricted unprintable_reply sample_signal initial =
       (False, emit console_error (ForwardFailed TypeError)
                 (initial\<lparr>requests := [ingest_request unrestricted sample_signal]\<rparr>))
   \<and> messagesForwarded
       (processMessage unrestricted unprintable_reply sample_signal initial) = 0"
proof -
  have t: "try_body unprintable_reply = Inl TypeError"
    by (simp add: try_body_def unprintable_reply_def utf16_def)
  then have "\<not> succeeds unprintable_reply"
    by (simp add: succeeds_def)
  with process_counters [of unrestricted unprintable_reply sample_signal initial]
  have "messagesForwarded
       (processMessage unrestricted unprintable_reply sample_signal initial) = 0"
    by (simp add: initial_def)
  moreover have "response_status unprintable_reply = Some (JStr (utf16 ''success''))"
    by (simp add: response_status_def unprintable_reply_def utf16_def)
  moreover have "forwardToWebsite unrestricted unprintable_reply sample_signal initial =
       (False, emit console_error (ForwardFailed TypeError)
                 (initial\<lparr>requests := [ingest_request unrestricted sample_signal]\<rparr>))"
    using t by (simp add: forwardToWebsite_def Let_def initial_def)
  ultimately show ?thesis by blast
qed

text \<open>
  Claim C4, as it is written: it fails.  The source channel is \<open>-1001234567890\<close>; a
  message that is not forwarded arrives in the chat \<open>-1234567890\<close>, whose identity is not
  the configured value.  The handler does not discard it: it counts it, and the forwarder
  is called.
\<close>

theorem other_chat_processed:
  "SOURCE_CHANNEL_ID restricted \<noteq> []
   \<and> forward_from_chat (message_in (- 1234567890) sample_signal) = None
   \<and> toString (chat_id (message_in (- 1234567890) sample_signal)) \<noteq> SOURCE_CHANNEL_ID restricted
   \<and> messagesReceived
       (on_text restricted (status_reply ''success'') (message_in (- 1234567890) sample_signal)
          initial) = 1
   \<and> messagesForwarded
       (on_text restricted (status_reply ''success'') (message_in (- 1234567890) sample_signal)
          initial) = 1
   \<and> requests
       (on_text restricted (status_reply ''success'') (message_in (- 1234567890) sample_signal)
          initial) = [ingest_request restricted sample_signal]"
proof -
  have src: "SOURCE_CHANNEL_ID restricted = utf16 ''-1001234567890''"
    by (simp add: restricted_def)
  have ne: "utf16 ''-1234567890'' \<noteq> utf16 ''-1001234567890''"
    by (simp add: utf16_def)
  have h: "on_text restricted (status_reply ''success'') (message_in (- 1234567890) sample_signal)
      initial = processMessage restricted (status_reply ''success'') sample_signal initial"
    by (simp add: on_text_def Let_def message_in_def src toString_examples replace_examples)
  note st = succeeds_status_reply
  show ?thesis
    unfolding h
    using process_counters [of restricted "status_reply ''success''" sample_signal initial]
      process_requests [of restricted "status_reply ''success''" sample_signal initial]
    by (simp add: src ne st sample_signal_valid message_in_def toString_examples initial_def
          utf16_def)
qed

text \<open>
  Claim C4, amended: when a source channel is configured, every text message whose chat
  identity, written in decimal, is neither the configured value nor the configured value
  with its first \<open>-100\<close> replaced by \<open>-\<close>, and which either is not forwarded or is
  forwarded from a chat whose identity is not the configured value with its first
  \<open>-100\<close> removed, is discarded before classification: the state stays as it is, so no
  counter changes, nothing is logged and the forwarder is not called.
\<close>

theorem mismatch_discarded:
  assumes "SOURCE_CHANNEL_ID cfg \<noteq> []"
    and "toString (chat_id u) \<noteq> SOURCE_CHANNEL_ID cfg"
    and "toString (chat_id u) \<noteq> replace (utf16 ''-100'') (utf16 ''-'') (SOURCE_CHANNEL_ID cfg)"
    and "\<forall>fid. forward_from_chat u = Some fid \<longrightarrow>
           toString fid \<noteq> replace (utf16 ''-100'') [] (SOURCE_CHANNEL_ID cfg)"
  shows "on_text cfg net u s = s"
  using assms by (simp add: on_text_def Let_def split: option.splits)

theorem mismatch_discarded_witness:
  "SOURCE_CHANNEL_ID restricted \<noteq> []
   \<and> toString (chat_id (forwarded_in 42 7 sample_signal))
       \<noteq> SOURCE_CHANNEL_ID restricted
   \<and> toString (chat_id (forwarded_in 42 7 sample_signal))
       \<noteq> replace (utf16 ''-100'') (utf16 ''-'') (SOURCE_CHANNEL_ID restricted)
   \<and> forward_from_chat (forwarded_in 42 7 sample_signal) = Some 7
   \<and> toString 7 \<noteq> replace (utf16 ''-100'') [] (SOURCE_CHANNEL_ID restricted)
   \<and> on_text restricted (status_reply ''success'')
        (forwarded_in 42 7 sample_signal) initial = initial"
proof -
  have src: "SOURCE_CHANNEL_ID restricted = utf16 ''-1001234567890''"
    by (simp add: restricted_def)
  have a: "SOURCE_CHANNEL_ID restricted \<noteq> []"
    by (simp add: src utf16_def)
  have b: "toString (chat_id (forwarded_in 42 7 sample_signal))
       \<noteq> SOURCE_CHANNEL_ID restricted"
    by (simp add: src forwarded_in_def toString_examples) (simp add: utf16_def)
  have c: "toString (chat_id (forwarded_in 42 7 sample_signal))
       \<noteq> replace (utf16 ''-100'') (utf16 ''-'') (SOURCE_CHANNEL_ID restricted)"
    by (simp add: src forwarded_in_def toString_examples replace_examples) (simp add: utf16_def)
  have d: "\<forall>fid. forward_from_chat (forwarded_in 42 7 sample_signal) = Some fid
          \<longrightarrow> toString fid \<noteq> replace (utf16 ''-100'') [] (SOURCE_CHANNEL_ID restricted)"
    by (simp add: src forwarded_in_def toString_def digits.simps replace_examples)
      (simp add: utf16_def)
  have e: "forward_from_chat (forwarded_in 42 7 sample_signal) = Some 7"
    by (simp add: forwarded_in_def)
  from a b c d e mismatch_discarded [OF a b c d] show ?thesis by blast
qed


text \<open>
  Claim C5 fails on the code.  Ten messages that are no signals arrive one after the
  other.  The tenth brings the received counter to 10, a multiple of ten, but handling it
  returns right after the line about the ignored message: the console holds the ten
  ignored lines and no summary line.
\<close>

theorem tenth_ignored_message_without_summary:
  "messagesReceived
     (run unrestricted (replicate 10 (Message Unreachable (message_in 42 hello))) initial) = 10
   \<and> messagesReceived
       (run unrestricted (replicate 10 (Message Unreachable (message_in 42 hello))) initial) mod 10
       = 0
   \<and> console
       (run unrestricted (replicate 10 (Message Unreachable (message_in 42 hello))) initial) =
       map (\<lambda>i. (console_log, IgnoredNonSignal i)) [1, 2, 3, 4, 5, 6, 7, 8, 9, 10]"
proof -
  have h: "handle unrestricted (Message Unreachable (message_in 42 hello)) s =
      s\<lparr>messagesReceived := messagesReceived s + 1, messagesIgnored := messagesIgnored s + 1,
        console := console s @ [(console_log, IgnoredNonSignal (messagesIgnored s + 1))]\<rparr>"
    for s
    by (simp add: handle_on_text on_text_def Let_def message_in_def unrestricted_def
          process_ignored hello_no_signal del: handle.simps)
  have r: "replicate 10 x = [x, x, x, x, x, x, x, x, x, x]" for x :: event
    by (simp add: numeral_eq_Suc)
  show ?thesis
    unfolding r by (simp add: h initial_def del: handle.simps)
qed

text \<open>
  Claim C8: the forwarder returns for every outcome of the transport.  When the endpoint
  cannot be reached, or the body of the response is not JSON, the statements inside
  \<open>try\<close> end with an exception, and the forwarder catches it: it returns false and
  writes the failure with \<open>console.error\<close>.  Whatever the outcome, the message is
  counted as received, and so is the message after it.
\<close>

theorem forwarder_catches:
  "try_body Unreachable = Inl FetchError
   \<and> try_body NotJson = Inl JsonSyntaxError
   \<and> forwardToWebsite cfg Unreachable text s =
       (False, emit console_error (ForwardFailed FetchError)
                 (s\<lparr>requests := requests s @ [ingest_request cfg text]\<rparr>))
   \<and> forwardToWebsite cfg NotJson text s =
       (False, emit console_error (ForwardFailed JsonSyntaxError)
                 (s\<lparr>requests := requests s @ [ingest_request cfg text]\<rparr>))
   \<and> fst (forwardToWebsite cfg net text s) =
       (case try_body net of Inl e \<Rightarrow> False | Inr (result, f, l) \<Rightarrow> result)
   \<and> messagesReceived (processMessage cfg net' text' (processMessage cfg net text s)) =
       messagesReceived s + 2"
proof -
  have a: "try_body Unreachable = Inl FetchError" "try_body NotJson = Inl JsonSyntaxError"
    by (simp_all add: try_body_def)
  have b: "fst (forwardToWebsite cfg net text s) =
       (case try_body net of Inl e \<Rightarrow> False | Inr (result, f, l) \<Rightarrow> result)"
    by (simp add: forwardToWebsite_def Let_def split: sum.splits prod.splits)
  have c: "messagesReceived (processMessage cfg net' text' (processMessage cfg net text s)) =
       messagesReceived s + 2"
    using process_counters [of cfg net' text' "processMessage cfg net text s"]
      process_counters [of cfg net "text" s] by simp
  from a b c show ?thesis by (simp add: forwardToWebsite_def Let_def)
qed


text \<open>
  Claim C10 fails on the code.  A user sends \<open>/test\<close>.  The test command alone would
  send the sample message through the forwarder and leave the counters as they were.
  But \<open>/test\<close> is a text message, and the handler of text messages is registered first
  and does not pass the update on: the message is counted as received and as ignored,
  nothing is sent and nothing is replied.
\<close>

theorem test_message_counted_not_forwarded:
  "is_command ''test'' (test_message_in 42)
   \<and> messagesReceived (test_command unrestricted Unreachable initial) = 0
   \<and> requests (test_command unrestricted Unreachable initial) =
       [ingest_request unrestricted testMessage]
   \<and> messagesReceived (handle unrestricted (Message Unreachable (test_message_in 42)) initial) = 1
   \<and> messagesIgnored (handle unrestricted (Message Unreachable (test_message_in 42)) initial) = 1
   \<and> requests (handle unrestricted (Message Unreachable (test_message_in 42)) initial) = []
   \<and> replies (handle unrestricted (Message Unreachable (test_message_in 42)) initial) = []"
proof -
  have n: "\<not> isValidSignalMessage (utf16 ''/test'')"
    by (simp add: isValidSignalMessage_def isNewSignal_def isTpUpdate_def isSlHit_def eval_test)
  have h: "handle unrestricted (Message Unreachable (test_message_in 42)) initial =
      processMessage unrestricted Unreachable (utf16 ''/test'') initial"
    unfolding handle_on_text
    by (simp add: on_text_def Let_def test_message_in_def unrestricted_def)
  have c: "is_command ''test'' (test_message_in 42)"
    by (simp add: is_command_def test_message_in_def)
  from test_command_frame [of unrestricted Unreachable initial] c show ?thesis
    unfolding h by (simp add: process_ignored [OF n] initial_def)
qed

end
